theory Spec2Isabelle
  imports Main "HOL-Library.Word" "HOL-Library.Multiset"
begin

section \<open>Strings\<close>

text \<open>
  A JavaScript string is a sequence of UTF-16 code units. \<open>utf16\<close> writes an ASCII literal
  as such a sequence.
\<close>

type_synonym js_string = "16 word list"

definition utf16 :: "string \<Rightarrow> js_string" where
  "utf16 s = map of_char s"

text \<open>
  \<open>String.prototype.trim\<close> removes the WhiteSpace and LineTerminator code points of
  ECMAScript from both ends: TAB, LF, VT, FF, CR, SPACE, NBSP, the other space separators
  (U+1680, U+2000 to U+200A, U+202F, U+205F, U+3000), U+2028, U+2029 and U+FEFF. All of
  them are single code units.
\<close>

definition isWhiteSpace :: "16 word \<Rightarrow> bool" where
  "isWhiteSpace c =
     (c \<in> {0x9, 0xA, 0xB, 0xC, 0xD, 0x20, 0xA0, 0x1680, 0x2028, 0x2029, 0x202F, 0x205F,
            0x3000, 0xFEFF} \<or> (0x2000 \<le> c \<and> c \<le> 0x200A))"

definition trim :: "js_string \<Rightarrow> js_string" where
  "trim s = rev (dropWhile isWhiteSpace (rev (dropWhile isWhiteSpace s)))"

text \<open>
  A string on its way to the database is encoded as UTF-8. A surrogate code unit that is
  not part of a pair (a high surrogate followed by a low one) has no encoding and is
  replaced by U+FFFD, as \<open>String.prototype.toWellFormed\<close> does; \<open>isWellFormed\<close> says that a
  string has no such code unit.
\<close>

definition isHighSurrogate :: "16 word \<Rightarrow> bool" where
  "isHighSurrogate c = (0xD800 \<le> c \<and> c \<le> 0xDBFF)"

definition isLowSurrogate :: "16 word \<Rightarrow> bool" where
  "isLowSurrogate c = (0xDC00 \<le> c \<and> c \<le> 0xDFFF)"

definition isSurrogate :: "16 word \<Rightarrow> bool" where
  "isSurrogate c = (0xD800 \<le> c \<and> c \<le> 0xDFFF)"

fun toWellFormed :: "js_string \<Rightarrow> js_string" where
  "toWellFormed [] = []"
| "toWellFormed [c] = (if isSurrogate c then [0xFFFD] else [c])"
| "toWellFormed (c # d # cs) =
     (if isHighSurrogate c \<and> isLowSurrogate d then c # d # toWellFormed cs
      else if isSurrogate c then 0xFFFD # toWellFormed (d # cs)
      else c # toWellFormed (d # cs))"

fun isWellFormed :: "js_string \<Rightarrow> bool" where
  "isWellFormed [] = True"
| "isWellFormed [c] = (\<not> isSurrogate c)"
| "isWellFormed (c # d # cs) =
     (if isHighSurrogate c \<and> isLowSurrogate d then isWellFormed cs
      else \<not> isSurrogate c \<and> isWellFormed (d # cs))"

section \<open>The todos table\<close>

text \<open>
  The row type of \<open>db/schema.ts\<close>, as LEARNING.md quotes it:
  \<^verbatim>\<open>
  export const todos = pgTable('todos', {
    id: serial('id').primaryKey(),
    text: text('text').notNull(),
    completed: boolean('completed').default(false),
    createdAt: timestamp('created_at').defaultNow(),
  });
  \<close>
  The fields \<open>id\<close> and \<open>text\<close> are called \<open>todo_id\<close> and \<open>todo_text\<close> here. A timestamp is
  an instant on the database's clock, a number of clock ticks. The columns \<open>completed\<close>
  and \<open>createdAt\<close> are only ever written by their defaults and by \<open>toggleTodo\<close>, which
  writes a boolean, so they are modelled without NULL.
\<close>

type_synonym timestamp = int

record todo =
  todo_id :: int
  todo_text :: js_string
  completed :: bool
  createdAt :: timestamp

text \<open>The statements the application sends to the database.\<close>

datatype stmt =
    SelectAllOrdered
  | SelectById int
  | InsertOne js_string
  | UpdateCompleted int bool
  | DeleteById int

text \<open>
  What a handler does to the outside, in the order it does it: a statement sent to the
  database, or a call of \<open>revalidatePath\<close>.
\<close>

datatype event = Stmt stmt | RevalidatePath string

text \<open>
  The handlers throw \<open>new Error(message)\<close>; a statement the database does not carry out
  (it is unreachable, or it rejects the statement) rejects the awaited promise, which is
  \<open>StorageError\<close>.
\<close>

datatype error = Error string | StorageError

text \<open>
  The state the server code runs in: the rows of the table in the order a scan yields
  them, the last value of the sequence behind the \<open>serial\<close> column, the database's clock
  (\<open>defaultNow\<close>), which statements the database does not carry out, and the effects so
  far, oldest first.
\<close>

record world =
  todos :: "todo list"
  id_seq :: int
  clock :: timestamp
  rejects :: "stmt \<Rightarrow> bool"
  trace :: "event list"

definition init_world :: world where
  "init_world = \<lparr>todos = [], id_seq = 0, clock = 0, rejects = (\<lambda>_. False), trace = []\<rparr>"

subsection \<open>Asynchronous code that may throw\<close>

text \<open>
  An \<open>async\<close> function is a state transformer that returns a value or the error it threw,
  together with the state it left. \<open>io_bind m f\<close> is \<open>const x = await m; f(x)\<close>: an error of
  \<open>m\<close> ends the computation, with the state \<open>m\<close> left.
\<close>

type_synonym 'a io = "world \<Rightarrow> (error + 'a) \<times> world"

definition io_return :: "'a \<Rightarrow> 'a io" where
  "io_return x w = (Inr x, w)"

definition io_throw :: "error \<Rightarrow> 'a io" where
  "io_throw e w = (Inl e, w)"

definition io_bind :: "'a io \<Rightarrow> ('a \<Rightarrow> 'b io) \<Rightarrow> 'b io" where
  "io_bind m f w = (case m w of (Inl e, w') \<Rightarrow> (Inl e, w') | (Inr x, w') \<Rightarrow> f x w')"

subsection \<open>The four statement shapes on the rows\<close>

text \<open>
  \<open>ORDER BY created_at DESC\<close> names one key. Rows with equal keys stay in the order
  the scan yields them: the sort is the stable insertion sort on the negated key.
\<close>

definition orderBy_desc_createdAt :: "todo list \<Rightarrow> todo list" where
  "orderBy_desc_createdAt rows = sort_key (\<lambda>r. - createdAt r) rows"

definition where_eq_id :: "int \<Rightarrow> todo list \<Rightarrow> todo option" where
  "where_eq_id i rows = find (\<lambda>r. todo_id r = i) rows"

definition set_completed :: "int \<Rightarrow> bool \<Rightarrow> todo list \<Rightarrow> todo list" where
  "set_completed i c rows = map (\<lambda>r. if todo_id r = i then r\<lparr>completed := c\<rparr> else r) rows"

definition delete_where_eq_id :: "int \<Rightarrow> todo list \<Rightarrow> todo list" where
  "delete_where_eq_id i rows = filter (\<lambda>r. todo_id r \<noteq> i) rows"

subsection \<open>The database handle\<close>

text \<open>Sending a statement records it; the database may not carry it out.\<close>

definition send :: "stmt \<Rightarrow> unit io" where
  "send s w =
     (let w' = w\<lparr>trace := trace w @ [Stmt s]\<rparr>
      in if rejects w s then (Inl StorageError, w') else (Inr (), w'))"

text \<open>\<^verbatim>\<open>db.query.todos.findMany({ orderBy: [desc(todos.createdAt)] })\<close>\<close>

definition db_findMany :: "todo list io" where
  "db_findMany =
     io_bind (send SelectAllOrdered) (\<lambda>_ w. (Inr (orderBy_desc_createdAt (todos w)), w))"

text \<open>\<^verbatim>\<open>db.query.todos.findFirst({ where: eq(todos.id, id) })\<close>\<close>

definition db_findFirst :: "int \<Rightarrow> todo option io" where
  "db_findFirst i = io_bind (send (SelectById i)) (\<lambda>_ w. (Inr (where_eq_id i (todos w)), w))"

text \<open>
  \<^verbatim>\<open>db.insert(todos).values({ text })\<close>: the id is the next value of the sequence,
  \<open>completed\<close> and \<open>createdAt\<close> take their defaults. The statement carries the string the
  action passed; the column holds what its UTF-8 encoding reads back as, which is the
  string with every unpaired surrogate replaced by U+FFFD.
\<close>

definition db_insert :: "js_string \<Rightarrow> unit io" where
  "db_insert txt =
     io_bind (send (InsertOne txt))
       (\<lambda>_ w. (Inr (),
          w\<lparr>todos := todos w @
               [\<lparr>todo_id = id_seq w + 1, todo_text = toWellFormed txt, completed = False,
                 createdAt = clock w\<rparr>],
            id_seq := id_seq w + 1\<rparr>))"

text \<open>\<^verbatim>\<open>db.update(todos).set({ completed }).where(eq(todos.id, id))\<close>\<close>

definition db_update :: "int \<Rightarrow> bool \<Rightarrow> unit io" where
  "db_update i c =
     io_bind (send (UpdateCompleted i c))
       (\<lambda>_ w. (Inr (), w\<lparr>todos := set_completed i c (todos w)\<rparr>))"

text \<open>\<^verbatim>\<open>db.delete(todos).where(eq(todos.id, id))\<close>\<close>

definition db_delete :: "int \<Rightarrow> unit io" where
  "db_delete i =
     io_bind (send (DeleteById i))
       (\<lambda>_ w. (Inr (), w\<lparr>todos := delete_where_eq_id i (todos w)\<rparr>))"

text \<open>\<open>revalidatePath\<close> marks the page at the path stale.\<close>

definition revalidatePath :: "string \<Rightarrow> unit io" where
  "revalidatePath p w = (Inr (), w\<lparr>trace := trace w @ [RevalidatePath p]\<rparr>)"

section \<open>The server actions\<close>

text \<open>
  \<^verbatim>\<open>
  export async function addTodo(text: string) {
    if (!text.trim()) {
      throw new Error('Todo text cannot be empty');
    }
    await db.insert(todos).values({ text: text.trim() });
    revalidatePath('/');
  }
  \<close>
  The empty string is the only falsy string.
\<close>

definition addTodo :: "js_string \<Rightarrow> unit io" where
  "addTodo txt =
     (if trim txt = [] then io_throw (Error ''Todo text cannot be empty'')
      else io_bind (db_insert (trim txt)) (\<lambda>_. revalidatePath ''/''))"

text \<open>
  \<^verbatim>\<open>
  export async function toggleTodo(id: number) {
    const todo = await db.query.todos.findFirst({ where: eq(todos.id, id) });
    if (!todo) {
      throw new Error('Todo not found');
    }
    await db.update(todos).set({ completed: !todo.completed }).where(eq(todos.id, id));
    revalidatePath('/');
  }
  \<close>
\<close>

definition toggleTodo :: "int \<Rightarrow> unit io" where
  "toggleTodo i =
     io_bind (db_findFirst i)
       (\<lambda>todo. case todo of
           None \<Rightarrow> io_throw (Error ''Todo not found'')
         | Some t \<Rightarrow> io_bind (db_update i (\<not> completed t)) (\<lambda>_. revalidatePath ''/''))"

text \<open>
  \<^verbatim>\<open>
  export async function deleteTodo(id: number) {
    await db.delete(todos).where(eq(todos.id, id));
    revalidatePath('/');
  }
  \<close>
\<close>

definition deleteTodo :: "int \<Rightarrow> unit io" where
  "deleteTodo i = io_bind (db_delete i) (\<lambda>_. revalidatePath ''/'')"

text \<open>The names the specification gives to the two errors the actions throw.\<close>

definition ValidationError :: error where
  "ValidationError = Error ''Todo text cannot be empty''"

definition NotFoundError :: error where
  "NotFoundError = Error ''Todo not found''"

section \<open>The list view\<close>

text \<open>
  \<open>TodoList\<close> fetches all rows and renders either the empty message or the two counts
  and one \<open>TodoItem\<close> per row, in the order of the query.
\<close>

datatype list_view = Empty | Listing nat nat "todo list"

definition render_TodoList :: "todo list \<Rightarrow> list_view" where
  "render_TodoList allTodos =
     (if length allTodos = 0 then Empty
      else
        let activeTodos = filter (\<lambda>todo. \<not> completed todo) allTodos;
            completedTodos = filter (\<lambda>todo. completed todo) allTodos
        in Listing (length activeTodos) (length completedTodos) allTodos)"

definition TodoList :: "list_view io" where
  "TodoList = io_bind db_findMany (\<lambda>allTodos. io_return (render_TodoList allTodos))"

text \<open>
  The specification's \<open>list()\<close>: the rows \<open>TodoList\<close> fetches, or the error of the fetch.
\<close>

definition list_todos :: "world \<Rightarrow> error + todo list" where
  "list_todos w = fst (db_findMany w)"

section \<open>The item view\<close>

text \<open>
  \<open>TodoItem\<close> (components/TodoItem.tsx) shows one row, its prop \<open>todo\<close>:
  \<^verbatim>\<open>
  const [isPending, startTransition] = useTransition();
  const [optimisticCompleted, setOptimisticCompleted] = useOptimistic(
    todo.completed,
    (_, newState: boolean) => newState
  );

  function handleToggle() {
    startTransition(() => {
      setOptimisticCompleted(!optimisticCompleted);
      toggleTodo(todo.id);
    });
  }
  \<close>
  The checkbox shows \<open>optimisticCompleted\<close> and is disabled while \<open>isPending\<close>. The copy of
  the component that follows \<open>TodoList\<close> in components/TodoList.tsx makes the same
  \<open>useOptimistic\<close> call and shows the same value; it has no \<open>isPending\<close>.

  The two hooks are React's. \<open>useOptimistic(passthrough, reducer)\<close> returns the reducer
  folded over the optimistic updates of the action in flight, starting from
  \<open>passthrough\<close>; once the action has finished, with an error or without, React drops the
  updates and the value is \<open>passthrough\<close> again. \<open>isPending\<close> is true while the action
  runs. The view keeps the updates of the action in flight, oldest first.
\<close>

record item_view =
  todo :: todo
  updates :: "bool list"
  isPending :: bool

definition useOptimistic :: "'s \<Rightarrow> ('s \<Rightarrow> 'a \<Rightarrow> 's) \<Rightarrow> 'a list \<Rightarrow> 's" where
  "useOptimistic passthrough reducer pending = foldl reducer passthrough pending"

definition optimisticCompleted :: "item_view \<Rightarrow> bool" where
  "optimisticCompleted v =
     useOptimistic (completed (todo v)) (\<lambda>_ newState. newState) (updates v)"

text \<open>A freshly rendered item: no action in flight.\<close>

definition TodoItem :: "todo \<Rightarrow> item_view" where
  "TodoItem t = \<lparr>todo = t, updates = [], isPending = False\<rparr>"

text \<open>
  \<open>handleToggle\<close>: the optimistic update on the client, then the server action. The
  result is the view while the action is in flight, the outcome of the action, and the
  state of the server.
\<close>

definition handleToggle :: "item_view \<Rightarrow> world \<Rightarrow> (item_view \<times> (error + unit)) \<times> world" where
  "handleToggle v w =
     (let v' = v\<lparr>updates := updates v @ [\<not> optimisticCompleted v], isPending := True\<rparr>;
          (r, w') = toggleTodo (todo_id (todo v)) w
      in ((v', r), w'))"

text \<open>
  The end of the action. React drops the optimistic updates. A failed action threw
  before \<open>revalidatePath\<close>, so the page is not fetched again and the prop stays. After a
  successful one the page is fetched again and the item with the same key gets the row
  the fetch returns for it; it is unmounted (\<open>None\<close>) when the fetch returns no such row.
\<close>

definition action_finished :: "error + unit \<Rightarrow> world \<Rightarrow> item_view \<Rightarrow> item_view option" where
  "action_finished r w v =
     (case r of
        Inl e \<Rightarrow> Some (v\<lparr>updates := [], isPending := False\<rparr>)
      | Inr _ \<Rightarrow>
          (case list_todos w of
             Inl e \<Rightarrow> None
           | Inr rows \<Rightarrow>
               (case where_eq_id (todo_id (todo v)) rows of
                  None \<Rightarrow> None
                | Some t \<Rightarrow> Some (v\<lparr>todo := t, updates := [], isPending := False\<rparr>))))"

section \<open>Well-formed tables and the orders of the specification\<close>

text \<open>
  \<open>id\<close> is the primary key, and its values come from the sequence: the ids in the table
  are distinct and none is beyond the last value of the sequence.
\<close>

definition wf_world :: "world \<Rightarrow> bool" where
  "wf_world w =
     (distinct (map todo_id (todos w)) \<and> list_all (\<lambda>r. todo_id r \<le> id_seq w) (todos w))"

text \<open>The order the query asks for: \<open>createdAt\<close> descending.\<close>

definition ordered_createdAt_desc :: "todo list \<Rightarrow> bool" where
  "ordered_createdAt_desc rows = sorted_wrt (\<lambda>a b. createdAt b \<le> createdAt a) rows"

text \<open>
  The order the specification describes: \<open>createdAt\<close> descending, and \<open>id\<close> descending
  among rows of equal \<open>createdAt\<close>.
\<close>

definition spec_ordered_createdAt_desc_id_desc :: "todo list \<Rightarrow> bool" where
  "spec_ordered_createdAt_desc_id_desc rows =
     sorted_wrt (\<lambda>a b. createdAt b < createdAt a \<or>
                        (createdAt b = createdAt a \<and> todo_id b < todo_id a)) rows"

text \<open>
  The scenario of the specification: ``A'', ``B'' and ``C'' added in this order to the
  empty table while the clock stands still.
\<close>

definition added_A_B_C :: world where
  "added_A_B_C =
     snd (addTodo (utf16 ''C'') (snd (addTodo (utf16 ''B'') (snd (addTodo (utf16 ''A'') init_world)))))"

text \<open>
  The table after \<open>addTodo("  buy milk ")\<close> on the empty one, and the same table behind a
  database that does not carry out the update that completes item 1.
\<close>

definition buy_milk :: world where
  "buy_milk = snd (addTodo (utf16 ''  buy milk '') init_world)"

definition buy_milk_update_fails :: world where
  "buy_milk_update_fails = buy_milk\<lparr>rejects := (\<lambda>s. s = UpdateCompleted 1 True)\<rparr>"

section \<open>Basic facts\<close>

subsection \<open>What each action returns and leaves\<close>

lemma send_ok:
  "\<not> rejects w s \<Longrightarrow> send s w = (Inr (), w\<lparr>trace := trace w @ [Stmt s]\<rparr>)"
  by (simp add: send_def)

lemma send_rejected:
  "rejects w s \<Longrightarrow> send s w = (Inl StorageError, w\<lparr>trace := trace w @ [Stmt s]\<rparr>)"
  by (simp add: send_def)

lemma addTodo_empty:
  "trim txt = [] \<Longrightarrow> addTodo txt w = (Inl ValidationError, w)"
  by (simp add: addTodo_def io_throw_def ValidationError_def)

lemma addTodo_rejected:
  "trim txt \<noteq> [] \<Longrightarrow> rejects w (InsertOne (trim txt)) \<Longrightarrow>
   addTodo txt w = (Inl StorageError, w\<lparr>trace := trace w @ [Stmt (InsertOne (trim txt))]\<rparr>)"
  by (simp add: addTodo_def db_insert_def io_bind_def send_rejected)

lemma addTodo_ok:
  "trim txt \<noteq> [] \<Longrightarrow> \<not> rejects w (InsertOne (trim txt)) \<Longrightarrow>
   addTodo txt w =
     (Inr (),
      w\<lparr>todos := todos w @
           [\<lparr>todo_id = id_seq w + 1, todo_text = toWellFormed (trim txt), completed = False,
             createdAt = clock w\<rparr>],
        id_seq := id_seq w + 1,
        trace := trace w @ [Stmt (InsertOne (trim txt)), RevalidatePath ''/'']\<rparr>)"
  by (simp add: addTodo_def db_insert_def io_bind_def send_ok revalidatePath_def)

lemma toggleTodo_select_rejected:
  "rejects w (SelectById i) \<Longrightarrow>
   toggleTodo i w = (Inl StorageError, w\<lparr>trace := trace w @ [Stmt (SelectById i)]\<rparr>)"
  by (simp add: toggleTodo_def db_findFirst_def io_bind_def send_rejected)

lemma toggleTodo_missing:
  "\<not> rejects w (SelectById i) \<Longrightarrow> where_eq_id i (todos w) = None \<Longrightarrow>
   toggleTodo i w = (Inl NotFoundError, w\<lparr>trace := trace w @ [Stmt (SelectById i)]\<rparr>)"
  by (simp add: toggleTodo_def db_findFirst_def io_bind_def send_ok io_throw_def
      NotFoundError_def)

lemma toggleTodo_update_rejected:
  "\<not> rejects w (SelectById i) \<Longrightarrow> where_eq_id i (todos w) = Some t \<Longrightarrow>
   rejects w (UpdateCompleted i (\<not> completed t)) \<Longrightarrow>
   toggleTodo i w =
     (Inl StorageError,
      w\<lparr>trace := trace w @ [Stmt (SelectById i), Stmt (UpdateCompleted i (\<not> completed t))]\<rparr>)"
  by (simp add: toggleTodo_def db_findFirst_def db_update_def io_bind_def send_ok send_rejected)

lemma toggleTodo_ok:
  "\<not> rejects w (SelectById i) \<Longrightarrow> where_eq_id i (todos w) = Some t \<Longrightarrow>
   \<not> rejects w (UpdateCompleted i (\<not> completed t)) \<Longrightarrow>
   toggleTodo i w =
     (Inr (),
      w\<lparr>todos := set_completed i (\<not> completed t) (todos w),
        trace := trace w @ [Stmt (SelectById i), Stmt (UpdateCompleted i (\<not> completed t)),
                            RevalidatePath ''/'']\<rparr>)"
  by (simp add: toggleTodo_def db_findFirst_def db_update_def io_bind_def send_ok
      revalidatePath_def)

lemma deleteTodo_rejected:
  "rejects w (DeleteById i) \<Longrightarrow>
   deleteTodo i w = (Inl StorageError, w\<lparr>trace := trace w @ [Stmt (DeleteById i)]\<rparr>)"
  by (simp add: deleteTodo_def db_delete_def io_bind_def send_rejected)

lemma deleteTodo_ok:
  "\<not> rejects w (DeleteById i) \<Longrightarrow>
   deleteTodo i w =
     (Inr (),
      w\<lparr>todos := delete_where_eq_id i (todos w),
        trace := trace w @ [Stmt (DeleteById i), RevalidatePath ''/'']\<rparr>)"
  by (simp add: deleteTodo_def db_delete_def io_bind_def send_ok revalidatePath_def)

lemma db_findMany_ok:
  "\<not> rejects w SelectAllOrdered \<Longrightarrow>
   db_findMany w =
     (Inr (orderBy_desc_createdAt (todos w)), w\<lparr>trace := trace w @ [Stmt SelectAllOrdered]\<rparr>)"
  by (simp add: db_findMany_def io_bind_def send_ok)

subsection \<open>Rows\<close>

lemma dropWhile_all_iff: "(\<forall>x \<in> set (dropWhile P xs). P x) \<longleftrightarrow> (\<forall>x \<in> set xs. P x)"
  by (induction xs) auto

lemma trim_empty_iff: "trim s = [] \<longleftrightarrow> (\<forall>c \<in> set s. isWhiteSpace c)"
  by (simp add: trim_def dropWhile_eq_Nil_conv dropWhile_all_iff)

lemma isWellFormed_toWellFormed: "isWellFormed s \<Longrightarrow> toWellFormed s = s"
  by (induction s rule: toWellFormed.induct) (auto split: if_splits)

lemma toWellFormed_eq_Nil_iff: "toWellFormed s = [] \<longleftrightarrow> s = []"
  by (induction s rule: toWellFormed.induct) auto

lemma where_eq_id_None_iff: "where_eq_id i rows = None \<longleftrightarrow> i \<notin> todo_id ` set rows"
  by (auto simp: where_eq_id_def find_None_iff)

lemma where_eq_id_set_completed:
  "where_eq_id i (set_completed i c rows) = map_option (\<lambda>r. r\<lparr>completed := c\<rparr>) (where_eq_id i rows)"
  by (induction rows) (auto simp: where_eq_id_def set_completed_def)

lemma map_todo_id_set_completed: "map todo_id (set_completed i c rows) = map todo_id rows"
  by (induction rows) (auto simp: set_completed_def)

lemma delete_absent: "i \<notin> todo_id ` set rows \<Longrightarrow> delete_where_eq_id i rows = rows"
  by (induction rows) (auto simp: delete_where_eq_id_def)

lemma orderBy_filter:
  "filter P (orderBy_desc_createdAt rows) = orderBy_desc_createdAt (filter P rows)"
  by (simp add: orderBy_desc_createdAt_def filter_sort)

lemma mset_orderBy: "mset (orderBy_desc_createdAt rows) = mset rows"
  by (simp add: orderBy_desc_createdAt_def)

lemma set_orderBy: "set (orderBy_desc_createdAt rows) = set rows"
  by (simp add: orderBy_desc_createdAt_def)

lemma sorted_orderBy:
  "sorted_wrt (\<lambda>a b. createdAt b \<le> createdAt a) (orderBy_desc_createdAt rows)"
proof -
  have "sorted (map (\<lambda>r. - createdAt r) (orderBy_desc_createdAt rows))"
    by (simp add: orderBy_desc_createdAt_def)
  then show ?thesis
    by (simp add: sorted_map)
qed

lemma stable_orderBy:
  "filter (\<lambda>r. createdAt r = k) (orderBy_desc_createdAt rows) = filter (\<lambda>r. createdAt r = k) rows"
proof -
  have "filter (\<lambda>r. - createdAt r = - k) (sort_key (\<lambda>r. - createdAt r) rows)
      = filter (\<lambda>r. - createdAt r = - k) rows"
    by (rule sort_key_stable)
  then show ?thesis
    by (simp add: orderBy_desc_createdAt_def)
qed

subsection \<open>What a result says about the run\<close>

lemma addTodo_success:
  assumes "fst (addTodo txt w) = Inr ()"
  shows "trim txt \<noteq> [] \<and> \<not> rejects w (InsertOne (trim txt))"
proof (intro conjI notI)
  assume "trim txt = []"
  with assms show False by (simp add: addTodo_empty)
next
  assume r: "rejects w (InsertOne (trim txt))"
  show False
  proof (cases "trim txt = []")
    case True
    with assms show False by (simp add: addTodo_empty)
  next
    case False
    with assms r show False by (simp add: addTodo_rejected)
  qed
qed

lemma addTodo_ValidationError:
  assumes "fst (addTodo txt w) = Inl ValidationError"
  shows "trim txt = []"
proof (rule ccontr)
  assume ne: "trim txt \<noteq> []"
  show False
  proof (cases "rejects w (InsertOne (trim txt))")
    case True
    with ne assms show False by (simp add: addTodo_rejected ValidationError_def)
  next
    case False
    with ne assms show False by (simp add: addTodo_ok)
  qed
qed

lemma toggleTodo_success:
  assumes "fst (toggleTodo i w) = Inr ()"
  shows "\<not> rejects w (SelectById i) \<and>
         (\<exists>t. where_eq_id i (todos w) = Some t \<and> \<not> rejects w (UpdateCompleted i (\<not> completed t)))"
proof (cases "rejects w (SelectById i)")
  case True
  with assms show ?thesis by (simp add: toggleTodo_select_rejected)
next
  case sel: False
  show ?thesis
  proof (cases "where_eq_id i (todos w)")
    case None
    with sel assms show ?thesis by (simp add: toggleTodo_missing)
  next
    case (Some t)
    show ?thesis
    proof (cases "rejects w (UpdateCompleted i (\<not> completed t))")
      case True
      with sel Some assms show ?thesis by (simp add: toggleTodo_update_rejected)
    next
      case False
      with sel Some show ?thesis by simp
    qed
  qed
qed

lemma toggleTodo_NotFoundError:
  assumes "fst (toggleTodo i w) = Inl NotFoundError"
  shows "\<not> rejects w (SelectById i) \<and> where_eq_id i (todos w) = None"
proof (cases "rejects w (SelectById i)")
  case True
  with assms show ?thesis by (simp add: toggleTodo_select_rejected NotFoundError_def)
next
  case sel: False
  show ?thesis
  proof (cases "where_eq_id i (todos w)")
    case None
    with sel show ?thesis by simp
  next
    case (Some t)
    show ?thesis
    proof (cases "rejects w (UpdateCompleted i (\<not> completed t))")
      case True
      with sel Some assms show ?thesis
        by (simp add: toggleTodo_update_rejected NotFoundError_def)
    next
      case False
      with sel Some assms show ?thesis by (simp add: toggleTodo_ok)
    qed
  qed
qed

lemma toggleTodo_failure_todos:
  assumes "fst (toggleTodo i w) = Inl e"
  shows "todos (snd (toggleTodo i w)) = todos w \<and> id_seq (snd (toggleTodo i w)) = id_seq w
         \<and> RevalidatePath p \<notin> set (drop (length (trace w)) (trace (snd (toggleTodo i w))))"
proof (cases "rejects w (SelectById i)")
  case True
  then show ?thesis by (simp add: toggleTodo_select_rejected)
next
  case sel: False
  show ?thesis
  proof (cases "where_eq_id i (todos w)")
    case None
    with sel show ?thesis by (simp add: toggleTodo_missing)
  next
    case (Some t)
    show ?thesis
    proof (cases "rejects w (UpdateCompleted i (\<not> completed t))")
      case True
      with sel Some show ?thesis by (simp add: toggleTodo_update_rejected)
    next
      case False
      with sel Some assms show ?thesis by (simp add: toggleTodo_ok)
    qed
  qed
qed

lemma deleteTodo_success:
  assumes "fst (deleteTodo i w) = Inr ()"
  shows "\<not> rejects w (DeleteById i)"
  using assms by (cases "rejects w (DeleteById i)") (simp_all add: deleteTodo_rejected)

lemma list_todos_ok:
  "\<not> rejects w SelectAllOrdered \<Longrightarrow> list_todos w = Inr (orderBy_desc_createdAt (todos w))"
  by (simp add: list_todos_def db_findMany_ok)

subsection \<open>The scenarios, evaluated\<close>

lemma trim_buy_milk: "trim (utf16 ''  buy milk '') = utf16 ''buy milk''"
  by (simp add: trim_def utf16_def isWhiteSpace_def)

lemma utf16_buy_milk_nonempty: "utf16 ''buy milk'' \<noteq> []"
  by (simp add: utf16_def)

lemma toWellFormed_buy_milk: "toWellFormed (utf16 ''buy milk'') = utf16 ''buy milk''"
  by (simp add: utf16_def isHighSurrogate_def isSurrogate_def)

lemma buy_milk_world:
  "buy_milk =
     \<lparr>todos = [\<lparr>todo_id = 1, todo_text = utf16 ''buy milk'', completed = False, createdAt = 0\<rparr>],
      id_seq = 1, clock = 0, rejects = (\<lambda>_. False),
      trace = [Stmt (InsertOne (utf16 ''buy milk'')), RevalidatePath ''/'']\<rparr>"
  by (simp add: buy_milk_def addTodo_ok trim_buy_milk utf16_buy_milk_nonempty toWellFormed_buy_milk init_world_def)

lemma buy_milk_update_fails_world:
  "buy_milk_update_fails =
     \<lparr>todos = [\<lparr>todo_id = 1, todo_text = utf16 ''buy milk'', completed = False, createdAt = 0\<rparr>],
      id_seq = 1, clock = 0, rejects = (\<lambda>s. s = UpdateCompleted 1 True),
      trace = [Stmt (InsertOne (utf16 ''buy milk'')), RevalidatePath ''/'']\<rparr>"
  by (simp add: buy_milk_update_fails_def buy_milk_world)

lemma added_A_B_C_world:
  "added_A_B_C =
     \<lparr>todos = [\<lparr>todo_id = 1, todo_text = utf16 ''A'', completed = False, createdAt = 0\<rparr>,
               \<lparr>todo_id = 2, todo_text = utf16 ''B'', completed = False, createdAt = 0\<rparr>,
               \<lparr>todo_id = 3, todo_text = utf16 ''C'', completed = False, createdAt = 0\<rparr>],
      id_seq = 3, clock = 0, rejects = (\<lambda>_. False),
      trace = [Stmt (InsertOne (utf16 ''A'')), RevalidatePath ''/'',
               Stmt (InsertOne (utf16 ''B'')), RevalidatePath ''/'',
               Stmt (InsertOne (utf16 ''C'')), RevalidatePath ''/'']\<rparr>"
proof -
  have t: "trim (utf16 ''A'') = utf16 ''A''" "trim (utf16 ''B'') = utf16 ''B''"
    "trim (utf16 ''C'') = utf16 ''C''"
    by (simp_all add: trim_def utf16_def isWhiteSpace_def)
  have n: "utf16 ''A'' \<noteq> []" "utf16 ''B'' \<noteq> []" "utf16 ''C'' \<noteq> []"
    by (simp_all add: utf16_def)
  have u: "toWellFormed (utf16 ''A'') = utf16 ''A''" "toWellFormed (utf16 ''B'') = utf16 ''B''"
    "toWellFormed (utf16 ''C'') = utf16 ''C''"
    by (simp_all add: utf16_def isSurrogate_def)
  show ?thesis
    by (simp add: added_A_B_C_def addTodo_ok t n u init_world_def)
qed

subsection \<open>The primary key and the sequence\<close>

lemma wf_init_world: "wf_world init_world"
  by (simp add: wf_world_def init_world_def)

lemma wf_world_fresh_id: "wf_world w \<Longrightarrow> id_seq w + 1 \<notin> todo_id ` set (todos w)"
  by (auto simp: wf_world_def list_all_iff)

lemma wf_addTodo: "wf_world w \<Longrightarrow> wf_world (snd (addTodo txt w))"
proof -
  assume wf: "wf_world w"
  show ?thesis
  proof (cases "trim txt = []")
    case True
    with wf show ?thesis by (simp add: addTodo_empty)
  next
    case ne: False
    show ?thesis
    proof (cases "rejects w (InsertOne (trim txt))")
      case True
      with ne wf show ?thesis by (simp add: addTodo_rejected wf_world_def)
    next
      case False
      have "list_all (\<lambda>r. todo_id r \<le> id_seq w + 1) (todos w)"
        using wf by (auto simp: wf_world_def list_all_iff)
      with ne False wf wf_world_fresh_id [OF wf] show ?thesis
        by (simp add: addTodo_ok wf_world_def)
    qed
  qed
qed

lemma wf_toggleTodo: "wf_world w \<Longrightarrow> wf_world (snd (toggleTodo i w))"
proof -
  assume wf: "wf_world w"
  show ?thesis
  proof (cases "fst (toggleTodo i w)")
    case (Inl e)
    then have "todos (snd (toggleTodo i w)) = todos w" "id_seq (snd (toggleTodo i w)) = id_seq w"
      using toggleTodo_failure_todos [of i w e "''/''"] by simp_all
    with wf show ?thesis by (simp add: wf_world_def)
  next
    case (Inr u)
    then have "fst (toggleTodo i w) = Inr ()" by simp
    then obtain t where "\<not> rejects w (SelectById i)" "where_eq_id i (todos w) = Some t"
      "\<not> rejects w (UpdateCompleted i (\<not> completed t))"
      using toggleTodo_success by blast
    then have rows: "todos (snd (toggleTodo i w)) = set_completed i (\<not> completed t) (todos w)"
      and seq: "id_seq (snd (toggleTodo i w)) = id_seq w"
      by (simp_all add: toggleTodo_ok)
    have "list_all (\<lambda>r. todo_id r \<le> id_seq w) (set_completed i c (todos w))" for c
      using wf by (auto simp: wf_world_def list_all_iff set_completed_def)
    with wf show ?thesis
      by (simp add: wf_world_def rows seq map_todo_id_set_completed)
  qed
qed

lemma wf_deleteTodo: "wf_world w \<Longrightarrow> wf_world (snd (deleteTodo i w))"
proof -
  assume wf: "wf_world w"
  show ?thesis
  proof (cases "rejects w (DeleteById i)")
    case True
    with wf show ?thesis by (simp add: deleteTodo_rejected wf_world_def)
  next
    case False
    have "distinct (map todo_id (filter (\<lambda>r. todo_id r \<noteq> i) (todos w)))"
      using wf by (simp add: wf_world_def distinct_map_filter)
    moreover have "list_all (\<lambda>r. todo_id r \<le> id_seq w) (filter (\<lambda>r. todo_id r \<noteq> i) (todos w))"
      using wf by (auto simp: wf_world_def list_all_iff)
    ultimately show ?thesis
      using False by (simp add: deleteTodo_ok wf_world_def delete_where_eq_id_def)
  qed
qed

subsection \<open>The list view and the end-to-end scenario\<close>

lemma TodoList_ok:
  "\<not> rejects w SelectAllOrdered \<Longrightarrow>
   fst (TodoList w) = Inr (render_TodoList (orderBy_desc_createdAt (todos w)))"
  by (simp add: TodoList_def io_bind_def db_findMany_ok io_return_def)

text \<open>
  The end-to-end scenario of the specification: add ``buy milk'', see it listed as not
  completed, toggle it, see it listed as completed, delete it, see the empty list.
\<close>

lemma end_to_end_scenario:
  "list_todos buy_milk
     = Inr [\<lparr>todo_id = 1, todo_text = utf16 ''buy milk'', completed = False, createdAt = 0\<rparr>]
   \<and> fst (toggleTodo 1 buy_milk) = Inr ()
   \<and> list_todos (snd (toggleTodo 1 buy_milk))
     = Inr [\<lparr>todo_id = 1, todo_text = utf16 ''buy milk'', completed = True, createdAt = 0\<rparr>]
   \<and> fst (TodoList (snd (toggleTodo 1 buy_milk)))
     = Inr (Listing 0 1
         [\<lparr>todo_id = 1, todo_text = utf16 ''buy milk'', completed = True, createdAt = 0\<rparr>])
   \<and> fst (deleteTodo 1 (snd (toggleTodo 1 buy_milk))) = Inr ()
   \<and> list_todos (snd (deleteTodo 1 (snd (toggleTodo 1 buy_milk)))) = Inr []
   \<and> fst (TodoList (snd (deleteTodo 1 (snd (toggleTodo 1 buy_milk))))) = Inr Empty"
proof -
  let ?t = "\<lparr>todo_id = 1, todo_text = utf16 ''buy milk'', completed = False, createdAt = 0\<rparr>"
  let ?w1 = "snd (toggleTodo 1 buy_milk)"
  let ?w2 = "snd (deleteTodo 1 ?w1)"
  have s0: "\<not> rejects buy_milk SelectAllOrdered"
    by (simp add: buy_milk_world)
  have l0: "list_todos buy_milk = Inr [?t]"
    using list_todos_ok [OF s0] by (simp add: buy_milk_world orderBy_desc_createdAt_def)
  have t1: "toggleTodo 1 buy_milk =
     (Inr (),
      buy_milk\<lparr>todos := set_completed 1 True (todos buy_milk),
        trace := trace buy_milk @ [Stmt (SelectById 1), Stmt (UpdateCompleted 1 True),
                            RevalidatePath ''/'']\<rparr>)"
    using toggleTodo_ok [of buy_milk 1 ?t] by (simp add: buy_milk_world where_eq_id_def)
  have rows1: "todos ?w1 = [?t\<lparr>completed := True\<rparr>]" and rej1: "rejects ?w1 = (\<lambda>_. False)"
    unfolding t1 by (simp_all add: buy_milk_world set_completed_def)
  have s1: "\<not> rejects ?w1 SelectAllOrdered"
    by (simp add: rej1)
  have l1: "list_todos ?w1 = Inr [?t\<lparr>completed := True\<rparr>]"
    using list_todos_ok [OF s1] by (simp add: rows1 orderBy_desc_createdAt_def)
  have v1: "fst (TodoList ?w1) = Inr (Listing 0 1 [?t\<lparr>completed := True\<rparr>])"
    using TodoList_ok [OF s1] by (simp add: rows1 orderBy_desc_createdAt_def render_TodoList_def)
  have d1: "\<not> rejects ?w1 (DeleteById 1)"
    by (simp add: rej1)
  have d2: "deleteTodo 1 ?w1 =
     (Inr (), ?w1\<lparr>todos := delete_where_eq_id 1 (todos ?w1),
        trace := trace ?w1 @ [Stmt (DeleteById 1), RevalidatePath ''/'']\<rparr>)"
    using d1 by (rule deleteTodo_ok)
  have rows2: "todos ?w2 = []" and rej2: "rejects ?w2 = (\<lambda>_. False)"
    unfolding d2 by (simp_all add: rows1 rej1 delete_where_eq_id_def)
  have s2: "\<not> rejects ?w2 SelectAllOrdered"
    by (simp add: rej2)
  have l2: "list_todos ?w2 = Inr []"
    using list_todos_ok [OF s2] by (simp add: rows2 orderBy_desc_createdAt_def)
  have v2: "fst (TodoList ?w2) = Inr Empty"
    using TodoList_ok [OF s2] by (simp add: rows2 orderBy_desc_createdAt_def render_TodoList_def)
  have r1: "fst (toggleTodo 1 buy_milk) = Inr ()"
    by (simp add: t1)
  have r2: "fst (deleteTodo 1 ?w1) = Inr ()"
    by (simp add: d2)
  from l0 r1 l1 v1 r2 l2 v2 show ?thesis by simp
qed

section \<open>The claims\<close>

subsection \<open>C1\<close>

text \<open>
  Claim C1, as the specification states it: the list is ordered by \<open>createdAt\<close>
  descending and, among equal \<open>createdAt\<close>, by \<open>id\<close> descending, so that ``A'', ``B'', ``C''
  added with equal timestamps are listed as ``C'', ``B'', ``A''. The query orders by
  \<open>createdAt\<close> only. After the three inserts of the scenario the list is ``A'', ``B'', ``C'',
  ids 1, 2, 3, which is not the order of the specification.
\<close>

theorem C1_equal_timestamps_counterexample:
  "list_todos added_A_B_C
     = Inr [\<lparr>todo_id = 1, todo_text = utf16 ''A'', completed = False, createdAt = 0\<rparr>,
            \<lparr>todo_id = 2, todo_text = utf16 ''B'', completed = False, createdAt = 0\<rparr>,
            \<lparr>todo_id = 3, todo_text = utf16 ''C'', completed = False, createdAt = 0\<rparr>]
   \<and> \<not> spec_ordered_createdAt_desc_id_desc
         [\<lparr>todo_id = 1, todo_text = utf16 ''A'', completed = False, createdAt = 0\<rparr>,
          \<lparr>todo_id = 2, todo_text = utf16 ''B'', completed = False, createdAt = 0\<rparr>,
          \<lparr>todo_id = 3, todo_text = utf16 ''C'', completed = False, createdAt = 0\<rparr>]
   \<and> map todo_text
         [\<lparr>todo_id = 1, todo_text = utf16 ''A'', completed = False, createdAt = 0\<rparr>,
          \<lparr>todo_id = 2, todo_text = utf16 ''B'', completed = False, createdAt = 0\<rparr>,
          \<lparr>todo_id = 3, todo_text = utf16 ''C'', completed = False, createdAt = 0\<rparr>]
       \<noteq> [utf16 ''C'', utf16 ''B'', utf16 ''A'']"
proof -
  have sel: "\<not> rejects added_A_B_C SelectAllOrdered"
    by (simp add: added_A_B_C_world)
  have "list_todos added_A_B_C
     = Inr [\<lparr>todo_id = 1, todo_text = utf16 ''A'', completed = False, createdAt = 0\<rparr>,
            \<lparr>todo_id = 2, todo_text = utf16 ''B'', completed = False, createdAt = 0\<rparr>,
            \<lparr>todo_id = 3, todo_text = utf16 ''C'', completed = False, createdAt = 0\<rparr>]"
    using list_todos_ok [OF sel] by (simp add: added_A_B_C_world orderBy_desc_createdAt_def)
  moreover have "\<not> spec_ordered_createdAt_desc_id_desc
         [\<lparr>todo_id = 1, todo_text = utf16 ''A'', completed = False, createdAt = 0\<rparr>,
          \<lparr>todo_id = 2, todo_text = utf16 ''B'', completed = False, createdAt = 0\<rparr>,
          \<lparr>todo_id = 3, todo_text = utf16 ''C'', completed = False, createdAt = 0\<rparr>]"
    by (simp add: spec_ordered_createdAt_desc_id_desc_def)
  moreover have "utf16 ''A'' \<noteq> utf16 ''C''"
    by (simp add: utf16_def)
  ultimately show ?thesis by simp
qed

text \<open>
  Claim C1, amended: whenever the database carries out the query, the list holds exactly
  the rows of the table, each as often as the table does, ordered by \<open>createdAt\<close>
  descending. Nothing is said about the order among rows of equal \<open>createdAt\<close>.
\<close>

theorem C1_list_ordered_by_createdAt_desc:
  assumes "\<not> rejects w SelectAllOrdered"
  shows "\<exists>rows. list_todos w = Inr rows \<and> mset rows = mset (todos w)
           \<and> ordered_createdAt_desc rows"
proof -
  have "list_todos w = Inr (orderBy_desc_createdAt (todos w))"
    using assms by (rule list_todos_ok)
  moreover have "mset (orderBy_desc_createdAt (todos w)) = mset (todos w)"
    by (rule mset_orderBy)
  moreover have "ordered_createdAt_desc (orderBy_desc_createdAt (todos w))"
    unfolding ordered_createdAt_desc_def by (rule sorted_orderBy)
  ultimately show ?thesis by blast
qed

theorem C1_list_ordered_by_createdAt_desc_witness:
  "\<not> rejects (snd (addTodo (utf16 ''  buy milk '') (buy_milk\<lparr>clock := 5\<rparr>))) SelectAllOrdered
   \<and> todos (snd (addTodo (utf16 ''  buy milk '') (buy_milk\<lparr>clock := 5\<rparr>)))
     = [\<lparr>todo_id = 1, todo_text = utf16 ''buy milk'', completed = False, createdAt = 0\<rparr>,
        \<lparr>todo_id = 2, todo_text = utf16 ''buy milk'', completed = False, createdAt = 5\<rparr>]
   \<and> list_todos (snd (addTodo (utf16 ''  buy milk '') (buy_milk\<lparr>clock := 5\<rparr>)))
     = Inr [\<lparr>todo_id = 2, todo_text = utf16 ''buy milk'', completed = False, createdAt = 5\<rparr>,
            \<lparr>todo_id = 1, todo_text = utf16 ''buy milk'', completed = False, createdAt = 0\<rparr>]
   \<and> ordered_createdAt_desc
        [\<lparr>todo_id = 2, todo_text = utf16 ''buy milk'', completed = False, createdAt = 5\<rparr>,
         \<lparr>todo_id = 1, todo_text = utf16 ''buy milk'', completed = False, createdAt = 0\<rparr>]"
proof -
  let ?w = "snd (addTodo (utf16 ''  buy milk '') (buy_milk\<lparr>clock := 5\<rparr>))"
  have w: "?w =
     \<lparr>todos = [\<lparr>todo_id = 1, todo_text = utf16 ''buy milk'', completed = False, createdAt = 0\<rparr>,
               \<lparr>todo_id = 2, todo_text = utf16 ''buy milk'', completed = False, createdAt = 5\<rparr>],
      id_seq = 2, clock = 5, rejects = (\<lambda>_. False),
      trace = [Stmt (InsertOne (utf16 ''buy milk'')), RevalidatePath ''/'',
               Stmt (InsertOne (utf16 ''buy milk'')), RevalidatePath ''/'']\<rparr>"
    by (simp add: addTodo_ok trim_buy_milk utf16_buy_milk_nonempty toWellFormed_buy_milk buy_milk_world)
  have sel: "\<not> rejects ?w SelectAllOrdered"
    by (simp add: w)
  have l: "list_todos ?w
     = Inr [\<lparr>todo_id = 2, todo_text = utf16 ''buy milk'', completed = False, createdAt = 5\<rparr>,
            \<lparr>todo_id = 1, todo_text = utf16 ''buy milk'', completed = False, createdAt = 0\<rparr>]"
    using list_todos_ok [OF sel] by (simp add: w orderBy_desc_createdAt_def)
  from C1_list_ordered_by_createdAt_desc [OF sel] l sel show ?thesis
    by (simp add: w)
qed

subsection \<open>C2\<close>

text \<open>
  Claim C2, as the specification states it: for every text that is not empty after
  trimming, the list after \<open>addTodo\<close> has one new item whose text equals the trimmed
  input. The text is a JavaScript string, and the column holds what the string's UTF-8
  encoding reads back as. For the text that is the single unpaired surrogate U+D800,
  which trimming leaves as it is, \<open>addTodo\<close> returns without an error and the new item's
  text is U+FFFD, not the trimmed input.
\<close>

theorem C2_lone_surrogate_counterexample:
  "trim [0xD800] = [0xD800]
   \<and> wf_world init_world
   \<and> list_todos init_world = Inr []
   \<and> fst (addTodo [0xD800] init_world) = Inr ()
   \<and> list_todos (snd (addTodo [0xD800] init_world))
     = Inr [\<lparr>todo_id = 1, todo_text = [0xFFFD], completed = False, createdAt = 0\<rparr>]
   \<and> [0xFFFD] \<noteq> trim [0xD800]"
proof -
  have t: "trim [0xD800] = [0xD800]"
    by (simp add: trim_def isWhiteSpace_def)
  have sel: "\<not> rejects init_world SelectAllOrdered"
    by (simp add: init_world_def)
  have before: "list_todos init_world = Inr []"
    using list_todos_ok [OF sel] by (simp add: orderBy_desc_createdAt_def init_world_def)
  have ok: "addTodo [0xD800] init_world =
     (Inr (),
      \<lparr>todos = [\<lparr>todo_id = 1, todo_text = [0xFFFD], completed = False, createdAt = 0\<rparr>],
       id_seq = 1, clock = 0, rejects = (\<lambda>_. False),
       trace = [Stmt (InsertOne [0xD800]), RevalidatePath ''/'']\<rparr>)"
    by (simp add: addTodo_ok t isSurrogate_def init_world_def)
  have sel': "\<not> rejects (snd (addTodo [0xD800] init_world)) SelectAllOrdered"
    by (simp add: ok)
  have after: "list_todos (snd (addTodo [0xD800] init_world))
     = Inr [\<lparr>todo_id = 1, todo_text = [0xFFFD], completed = False, createdAt = 0\<rparr>]"
    using list_todos_ok [OF sel'] by (simp add: ok orderBy_desc_createdAt_def)
  have r: "fst (addTodo [0xD800] init_world) = Inr ()"
    by (simp add: ok)
  from t wf_init_world before r after show ?thesis
    by simp
qed

text \<open>
  Claim C2, amended: for every text that is not empty after trimming, on a well-formed
  table and a database that carries out the insert and the fetch, \<open>addTodo\<close> returns
  without an error, and the list afterwards is the list before plus exactly one new
  item. Its text is the trimmed input with every unpaired surrogate replaced by U+FFFD,
  which is the trimmed input itself whenever that is well-formed UTF-16; it is not
  completed, its creation time is the clock's at the insert, and its id is the id of no
  item of the list before.
\<close>

theorem C2_addTodo_adds_one_item:
  assumes ne: "trim txt \<noteq> []"
    and wf: "wf_world w"
    and ins: "\<not> rejects w (InsertOne (trim txt))"
    and sel: "\<not> rejects w SelectAllOrdered"
  shows "fst (addTodo txt w) = Inr ()
       \<and> (\<exists>before after new.
             list_todos w = Inr before
           \<and> list_todos (snd (addTodo txt w)) = Inr after
           \<and> mset after = add_mset new (mset before)
           \<and> todo_text new = toWellFormed (trim txt)
           \<and> (isWellFormed (trim txt) \<longrightarrow> todo_text new = trim txt)
           \<and> completed new = False
           \<and> createdAt new = clock w
           \<and> todo_id new \<notin> todo_id ` set before)"
proof -
  let ?w' = "snd (addTodo txt w)"
  let ?new = "\<lparr>todo_id = id_seq w + 1, todo_text = toWellFormed (trim txt), completed = False,
               createdAt = clock w\<rparr>"
  have ok: "addTodo txt w =
     (Inr (),
      w\<lparr>todos := todos w @ [?new], id_seq := id_seq w + 1,
        trace := trace w @ [Stmt (InsertOne (trim txt)), RevalidatePath ''/'']\<rparr>)"
    using ne ins by (rule addTodo_ok)
  have r: "fst (addTodo txt w) = Inr ()"
    by (simp add: ok)
  have rows: "todos ?w' = todos w @ [?new]"
    by (simp add: ok)
  have sel': "\<not> rejects ?w' SelectAllOrdered"
    using sel by (simp add: ok)
  have b: "list_todos w = Inr (orderBy_desc_createdAt (todos w))"
    using sel by (rule list_todos_ok)
  have a: "list_todos ?w' = Inr (orderBy_desc_createdAt (todos ?w'))"
    using sel' by (rule list_todos_ok)
  have m: "mset (orderBy_desc_createdAt (todos ?w'))
         = add_mset ?new (mset (orderBy_desc_createdAt (todos w)))"
    by (simp add: mset_orderBy rows)
  have same: "isWellFormed (trim txt) \<longrightarrow> todo_text ?new = trim txt"
    by (simp add: isWellFormed_toWellFormed)
  have fresh: "todo_id ?new \<notin> todo_id ` set (orderBy_desc_createdAt (todos w))"
    using wf_world_fresh_id [OF wf] by (simp add: set_orderBy)
  have "list_todos w = Inr (orderBy_desc_createdAt (todos w))
           \<and> list_todos ?w' = Inr (orderBy_desc_createdAt (todos ?w'))
           \<and> mset (orderBy_desc_createdAt (todos ?w'))
               = add_mset ?new (mset (orderBy_desc_createdAt (todos w)))
           \<and> todo_text ?new = toWellFormed (trim txt)
           \<and> (isWellFormed (trim txt) \<longrightarrow> todo_text ?new = trim txt)
           \<and> completed ?new = False
           \<and> createdAt ?new = clock w
           \<and> todo_id ?new \<notin> todo_id ` set (orderBy_desc_createdAt (todos w))"
    using a b m same fresh by simp
  then have "\<exists>before after new.
             list_todos w = Inr before
           \<and> list_todos ?w' = Inr after
           \<and> mset after = add_mset new (mset before)
           \<and> todo_text new = toWellFormed (trim txt)
           \<and> (isWellFormed (trim txt) \<longrightarrow> todo_text new = trim txt)
           \<and> completed new = False
           \<and> createdAt new = clock w
           \<and> todo_id new \<notin> todo_id ` set before"
    by blast
  with r show ?thesis by blast
qed

theorem C2_addTodo_adds_one_item_witness:
  "trim (utf16 ''  buy milk '') = utf16 ''buy milk''
   \<and> utf16 ''buy milk'' \<noteq> []
   \<and> isWellFormed (utf16 ''buy milk'')
   \<and> wf_world (added_A_B_C\<lparr>clock := 7\<rparr>)
   \<and> \<not> rejects (added_A_B_C\<lparr>clock := 7\<rparr>) (InsertOne (utf16 ''buy milk''))
   \<and> \<not> rejects (added_A_B_C\<lparr>clock := 7\<rparr>) SelectAllOrdered
   \<and> fst (addTodo (utf16 ''  buy milk '') (added_A_B_C\<lparr>clock := 7\<rparr>)) = Inr ()
   \<and> list_todos (added_A_B_C\<lparr>clock := 7\<rparr>)
     = Inr [\<lparr>todo_id = 1, todo_text = utf16 ''A'', completed = False, createdAt = 0\<rparr>,
            \<lparr>todo_id = 2, todo_text = utf16 ''B'', completed = False, createdAt = 0\<rparr>,
            \<lparr>todo_id = 3, todo_text = utf16 ''C'', completed = False, createdAt = 0\<rparr>]
   \<and> list_todos (snd (addTodo (utf16 ''  buy milk '') (added_A_B_C\<lparr>clock := 7\<rparr>)))
     = Inr [\<lparr>todo_id = 4, todo_text = utf16 ''buy milk'', completed = False, createdAt = 7\<rparr>,
            \<lparr>todo_id = 1, todo_text = utf16 ''A'', completed = False, createdAt = 0\<rparr>,
            \<lparr>todo_id = 2, todo_text = utf16 ''B'', completed = False, createdAt = 0\<rparr>,
            \<lparr>todo_id = 3, todo_text = utf16 ''C'', completed = False, createdAt = 0\<rparr>]
   \<and> 4 \<notin> todo_id `
         set [\<lparr>todo_id = 1, todo_text = utf16 ''A'', completed = False, createdAt = 0\<rparr>,
              \<lparr>todo_id = 2, todo_text = utf16 ''B'', completed = False, createdAt = 0\<rparr>,
              \<lparr>todo_id = 3, todo_text = utf16 ''C'', completed = False, createdAt = 0\<rparr>]"
proof -
  let ?w = "added_A_B_C\<lparr>clock := 7\<rparr>"
  let ?txt = "utf16 ''  buy milk ''"
  have ne: "trim ?txt \<noteq> []"
    by (simp add: trim_buy_milk utf16_buy_milk_nonempty)
  have wfm: "isWellFormed (utf16 ''buy milk'')"
    by (simp add: utf16_def isHighSurrogate_def isSurrogate_def)
  have wf: "wf_world ?w"
    by (simp add: wf_world_def added_A_B_C_world)
  have ins: "\<not> rejects ?w (InsertOne (trim ?txt))"
    and sel: "\<not> rejects ?w SelectAllOrdered"
    by (simp_all add: added_A_B_C_world)
  have before: "list_todos ?w
     = Inr [\<lparr>todo_id = 1, todo_text = utf16 ''A'', completed = False, createdAt = 0\<rparr>,
            \<lparr>todo_id = 2, todo_text = utf16 ''B'', completed = False, createdAt = 0\<rparr>,
            \<lparr>todo_id = 3, todo_text = utf16 ''C'', completed = False, createdAt = 0\<rparr>]"
    using list_todos_ok [OF sel] by (simp add: added_A_B_C_world orderBy_desc_createdAt_def)
  have ok: "addTodo ?txt ?w =
     (Inr (),
      ?w\<lparr>todos := todos ?w @
           [\<lparr>todo_id = id_seq ?w + 1, todo_text = toWellFormed (trim ?txt), completed = False,
             createdAt = clock ?w\<rparr>],
        id_seq := id_seq ?w + 1,
        trace := trace ?w @ [Stmt (InsertOne (trim ?txt)), RevalidatePath ''/'']\<rparr>)"
    using ne ins by (rule addTodo_ok)
  have rows: "todos (snd (addTodo ?txt ?w))
     = [\<lparr>todo_id = 1, todo_text = utf16 ''A'', completed = False, createdAt = 0\<rparr>,
        \<lparr>todo_id = 2, todo_text = utf16 ''B'', completed = False, createdAt = 0\<rparr>,
        \<lparr>todo_id = 3, todo_text = utf16 ''C'', completed = False, createdAt = 0\<rparr>,
        \<lparr>todo_id = 4, todo_text = utf16 ''buy milk'', completed = False, createdAt = 7\<rparr>]"
    unfolding ok by (simp add: added_A_B_C_world trim_buy_milk toWellFormed_buy_milk)
  have sel': "\<not> rejects (snd (addTodo ?txt ?w)) SelectAllOrdered"
    unfolding ok by (simp add: added_A_B_C_world)
  have after: "list_todos (snd (addTodo ?txt ?w))
     = Inr [\<lparr>todo_id = 4, todo_text = utf16 ''buy milk'', completed = False, createdAt = 7\<rparr>,
            \<lparr>todo_id = 1, todo_text = utf16 ''A'', completed = False, createdAt = 0\<rparr>,
            \<lparr>todo_id = 2, todo_text = utf16 ''B'', completed = False, createdAt = 0\<rparr>,
            \<lparr>todo_id = 3, todo_text = utf16 ''C'', completed = False, createdAt = 0\<rparr>]"
    using list_todos_ok [OF sel'] by (simp add: rows orderBy_desc_createdAt_def)
  have ins': "\<not> rejects ?w (InsertOne (utf16 ''buy milk''))"
    using ins by (simp add: trim_buy_milk)
  from C2_addTodo_adds_one_item [OF ne wf ins sel]
  have r: "fst (addTodo ?txt ?w) = Inr ()"
    by blast
  from r trim_buy_milk utf16_buy_milk_nonempty wfm wf ins' sel before after
  show ?thesis
    by simp
qed

subsection \<open>C3\<close>

text \<open>
  Claim C3. For every text that is empty or consists of whitespace only, \<open>addTodo\<close>
  throws the validation error to its caller and leaves the state as it found it: no
  statement was sent to the database, nothing was invalidated, the table and the list
  are the same.
\<close>

theorem C3_addTodo_blank_text:
  assumes "\<forall>c \<in> set txt. isWhiteSpace c"
  shows "addTodo txt w = (Inl ValidationError, w)
       \<and> trace (snd (addTodo txt w)) = trace w
       \<and> todos (snd (addTodo txt w)) = todos w
       \<and> list_todos (snd (addTodo txt w)) = list_todos w"
proof -
  from assms have "trim txt = []"
    by (simp add: trim_empty_iff)
  then have "addTodo txt w = (Inl ValidationError, w)"
    by (rule addTodo_empty)
  then show ?thesis by simp
qed

theorem C3_addTodo_blank_text_witness:
  "isWhiteSpace 0x20 \<and> isWhiteSpace 0x9 \<and> isWhiteSpace 0xA0
   \<and> addTodo [0x20, 0x9, 0xA0] init_world = (Inl (Error ''Todo text cannot be empty''), init_world)
   \<and> addTodo [] init_world = (Inl (Error ''Todo text cannot be empty''), init_world)"
proof -
  have h: "\<forall>c \<in> set [0x20, 0x9, 0xA0]. isWhiteSpace c"
    by (simp add: isWhiteSpace_def)
  have h0: "\<forall>c \<in> set []. isWhiteSpace c"
    by simp
  from C3_addTodo_blank_text [OF h, of init_world] C3_addTodo_blank_text [OF h0, of init_world] h
  show ?thesis by (simp add: ValidationError_def)
qed

subsection \<open>C4\<close>

text \<open>
  Claim C4. For the row an id identifies, and a database that carries out the lookup and
  the update, \<open>toggleTodo\<close> returns without an error and the row then has the negated
  \<open>completed\<close> flag and is otherwise the same; a second \<open>toggleTodo\<close> on the same id
  returns without an error too and gives the row back as it was.
\<close>

theorem C4_toggleTodo_flips_and_twice_restores:
  assumes found: "where_eq_id i (todos w) = Some t"
    and sel: "\<not> rejects w (SelectById i)"
    and updT: "\<not> rejects w (UpdateCompleted i True)"
    and updF: "\<not> rejects w (UpdateCompleted i False)"
  shows "fst (toggleTodo i w) = Inr ()
       \<and> where_eq_id i (todos (snd (toggleTodo i w))) = Some (t\<lparr>completed := \<not> completed t\<rparr>)
       \<and> fst (toggleTodo i (snd (toggleTodo i w))) = Inr ()
       \<and> where_eq_id i (todos (snd (toggleTodo i (snd (toggleTodo i w))))) = Some t"
proof -
  let ?w1 = "snd (toggleTodo i w)"
  let ?t1 = "t\<lparr>completed := \<not> completed t\<rparr>"
  have upd: "\<not> rejects w (UpdateCompleted i c)" for c
    using updT updF by (cases c) simp_all
  have ok1: "toggleTodo i w =
     (Inr (),
      w\<lparr>todos := set_completed i (\<not> completed t) (todos w),
        trace := trace w @ [Stmt (SelectById i), Stmt (UpdateCompleted i (\<not> completed t)),
                            RevalidatePath ''/'']\<rparr>)"
    using sel found upd by (rule toggleTodo_ok)
  have found1: "where_eq_id i (todos ?w1) = Some ?t1"
    by (simp add: ok1 where_eq_id_set_completed found)
  have rej1: "rejects ?w1 = rejects w"
    by (simp add: ok1)
  have sel1: "\<not> rejects ?w1 (SelectById i)"
    using sel by (simp add: rej1)
  have upd1: "\<not> rejects ?w1 (UpdateCompleted i (\<not> completed ?t1))"
    using upd by (simp add: rej1)
  have ok2: "toggleTodo i ?w1 =
     (Inr (),
      ?w1\<lparr>todos := set_completed i (\<not> completed ?t1) (todos ?w1),
        trace := trace ?w1 @ [Stmt (SelectById i), Stmt (UpdateCompleted i (\<not> completed ?t1)),
                            RevalidatePath ''/'']\<rparr>)"
    using sel1 found1 upd1 by (rule toggleTodo_ok)
  have found2: "where_eq_id i (todos (snd (toggleTodo i ?w1))) = Some t"
    by (simp add: ok2 where_eq_id_set_completed found1)
  have r1: "fst (toggleTodo i w) = Inr ()"
    by (simp add: ok1)
  have r2: "fst (toggleTodo i ?w1) = Inr ()"
    by (simp add: ok2)
  from r1 found1 r2 found2 show ?thesis by blast
qed

theorem C4_toggleTodo_flips_and_twice_restores_witness:
  "where_eq_id 1 (todos buy_milk)
     = Some \<lparr>todo_id = 1, todo_text = utf16 ''buy milk'', completed = False, createdAt = 0\<rparr>
   \<and> \<not> rejects buy_milk (SelectById 1)
   \<and> \<not> rejects buy_milk (UpdateCompleted 1 True)
   \<and> \<not> rejects buy_milk (UpdateCompleted 1 False)
   \<and> fst (toggleTodo 1 buy_milk) = Inr ()
   \<and> where_eq_id 1 (todos (snd (toggleTodo 1 buy_milk)))
     = Some \<lparr>todo_id = 1, todo_text = utf16 ''buy milk'', completed = True, createdAt = 0\<rparr>
   \<and> fst (toggleTodo 1 (snd (toggleTodo 1 buy_milk))) = Inr ()
   \<and> where_eq_id 1 (todos (snd (toggleTodo 1 (snd (toggleTodo 1 buy_milk)))))
     = Some \<lparr>todo_id = 1, todo_text = utf16 ''buy milk'', completed = False, createdAt = 0\<rparr>"
proof -
  have f: "where_eq_id 1 (todos buy_milk)
     = Some \<lparr>todo_id = 1, todo_text = utf16 ''buy milk'', completed = False, createdAt = 0\<rparr>"
    by (simp add: buy_milk_world where_eq_id_def)
  have s: "\<not> rejects buy_milk (SelectById 1)"
    and uT: "\<not> rejects buy_milk (UpdateCompleted 1 True)"
    and uF: "\<not> rejects buy_milk (UpdateCompleted 1 False)"
    by (simp_all add: buy_milk_world)
  from C4_toggleTodo_flips_and_twice_restores [OF f s uT uF] f s uT uF show ?thesis
    by simp
qed

subsection \<open>C5\<close>

text \<open>
  Claim C5. For every id that identifies no row, \<open>toggleTodo\<close> fails and leaves the table
  and the sequence as they were; when the database answers the lookup, the error is the
  not-found error, thrown after the lookup and before any other effect.
\<close>

theorem C5_toggleTodo_missing_id:
  assumes "i \<notin> todo_id ` set (todos w)"
  shows "todos (snd (toggleTodo i w)) = todos w
       \<and> id_seq (snd (toggleTodo i w)) = id_seq w
       \<and> (\<exists>e. fst (toggleTodo i w) = Inl e)
       \<and> (\<not> rejects w (SelectById i) \<longrightarrow>
            toggleTodo i w = (Inl NotFoundError, w\<lparr>trace := trace w @ [Stmt (SelectById i)]\<rparr>))"
proof -
  from assms have none: "where_eq_id i (todos w) = None"
    by (simp add: where_eq_id_None_iff)
  show ?thesis
  proof (cases "rejects w (SelectById i)")
    case True
    then show ?thesis by (simp add: toggleTodo_select_rejected)
  next
    case False
    with none show ?thesis by (simp add: toggleTodo_missing)
  qed
qed

theorem C5_toggleTodo_missing_id_witness:
  "2 \<notin> todo_id ` set (todos buy_milk) \<and> \<not> rejects buy_milk (SelectById 2)
   \<and> toggleTodo 2 buy_milk
       = (Inl (Error ''Todo not found''), buy_milk\<lparr>trace := trace buy_milk @ [Stmt (SelectById 2)]\<rparr>)
   \<and> todos (snd (toggleTodo 2 buy_milk)) = todos buy_milk"
proof -
  have h: "2 \<notin> todo_id ` set (todos buy_milk)"
    by (simp add: buy_milk_world)
  have r: "\<not> rejects buy_milk (SelectById 2)"
    by (simp add: buy_milk_world)
  from C5_toggleTodo_missing_id [OF h] h r show ?thesis
    by (simp add: NotFoundError_def)
qed

subsection \<open>C6\<close>

text \<open>
  Claim C6. When the database carries out the delete statement, \<open>deleteTodo\<close> returns
  without an error and removes exactly the rows with that id, so that neither the table
  nor a following list contains the id; on an id that is not in the table it changes no
  row, and a second call on the same id returns without an error and changes no row.
\<close>

theorem C6_deleteTodo_best_effort:
  assumes "\<not> rejects w (DeleteById i)"
  shows "fst (deleteTodo i w) = Inr ()
       \<and> todos (snd (deleteTodo i w)) = filter (\<lambda>r. todo_id r \<noteq> i) (todos w)
       \<and> i \<notin> todo_id ` set (todos (snd (deleteTodo i w)))
       \<and> (\<not> rejects w SelectAllOrdered \<longrightarrow>
            (\<exists>before after. list_todos w = Inr before
               \<and> list_todos (snd (deleteTodo i w)) = Inr after
               \<and> after = filter (\<lambda>r. todo_id r \<noteq> i) before
               \<and> i \<notin> todo_id ` set after))
       \<and> (i \<notin> todo_id ` set (todos w) \<longrightarrow> todos (snd (deleteTodo i w)) = todos w)
       \<and> fst (deleteTodo i (snd (deleteTodo i w))) = Inr ()
       \<and> todos (snd (deleteTodo i (snd (deleteTodo i w)))) = todos (snd (deleteTodo i w))"
proof -
  let ?w' = "snd (deleteTodo i w)"
  have ok: "deleteTodo i w =
     (Inr (), w\<lparr>todos := delete_where_eq_id i (todos w),
                trace := trace w @ [Stmt (DeleteById i), RevalidatePath ''/'']\<rparr>)"
    using assms by (rule deleteTodo_ok)
  have rows: "todos ?w' = filter (\<lambda>r. todo_id r \<noteq> i) (todos w)"
    by (simp add: ok delete_where_eq_id_def)
  have gone: "i \<notin> todo_id ` set (todos ?w')"
    by (auto simp: rows)
  have rej: "rejects ?w' = rejects w"
    by (simp add: ok)
  have listing: "\<exists>before after. list_todos w = Inr before
               \<and> list_todos ?w' = Inr after
               \<and> after = filter (\<lambda>r. todo_id r \<noteq> i) before
               \<and> i \<notin> todo_id ` set after" if sel: "\<not> rejects w SelectAllOrdered"
  proof -
    from sel rej have sel': "\<not> rejects ?w' SelectAllOrdered" by simp
    have b: "list_todos w = Inr (orderBy_desc_createdAt (todos w))"
      using sel by (rule list_todos_ok)
    have a: "list_todos ?w' = Inr (orderBy_desc_createdAt (todos ?w'))"
      using sel' by (rule list_todos_ok)
    have f: "orderBy_desc_createdAt (todos ?w')
           = filter (\<lambda>r. todo_id r \<noteq> i) (orderBy_desc_createdAt (todos w))"
      by (simp add: rows orderBy_filter)
    have "i \<notin> todo_id ` set (orderBy_desc_createdAt (todos ?w'))"
      using gone by (simp add: set_orderBy)
    with a b f show ?thesis by simp
  qed
  have absent: "todos ?w' = todos w" if "i \<notin> todo_id ` set (todos w)"
    using that delete_absent [of i "todos w"] by (simp add: ok)
  from assms rej have again: "\<not> rejects ?w' (DeleteById i)" by simp
  have ok2: "deleteTodo i ?w' =
     (Inr (), ?w'\<lparr>todos := delete_where_eq_id i (todos ?w'),
                trace := trace ?w' @ [Stmt (DeleteById i), RevalidatePath ''/'']\<rparr>)"
    using again by (rule deleteTodo_ok)
  have twice: "todos (snd (deleteTodo i ?w')) = todos ?w'"
    using gone delete_absent [of i "todos ?w'"] by (simp add: ok2)
  have r1: "fst (deleteTodo i w) = Inr ()" by (simp add: ok)
  have r2: "fst (deleteTodo i ?w') = Inr ()" by (simp add: ok2)
  from r1 rows gone listing absent r2 twice show ?thesis by blast
qed

theorem C6_deleteTodo_best_effort_witness:
  "\<not> rejects buy_milk (DeleteById 1) \<and> \<not> rejects buy_milk SelectAllOrdered
   \<and> 1 \<in> todo_id ` set (todos buy_milk)
   \<and> fst (deleteTodo 1 buy_milk) = Inr ()
   \<and> todos (snd (deleteTodo 1 buy_milk)) = []
   \<and> list_todos (snd (deleteTodo 1 buy_milk)) = Inr []
   \<and> 1 \<notin> todo_id ` set (todos (snd (deleteTodo 1 buy_milk)))
   \<and> fst (deleteTodo 1 (snd (deleteTodo 1 buy_milk))) = Inr ()
   \<and> todos (snd (deleteTodo 1 (snd (deleteTodo 1 buy_milk)))) = []"
proof -
  have h: "\<not> rejects buy_milk (DeleteById 1)"
    by (simp add: buy_milk_world)
  have s: "\<not> rejects buy_milk SelectAllOrdered"
    by (simp add: buy_milk_world)
  have p: "1 \<in> todo_id ` set (todos buy_milk)"
    by (simp add: buy_milk_world)
  have t: "todos buy_milk
         = [\<lparr>todo_id = 1, todo_text = utf16 ''buy milk'', completed = False, createdAt = 0\<rparr>]"
    by (simp add: buy_milk_world)
  have l: "list_todos buy_milk
         = Inr [\<lparr>todo_id = 1, todo_text = utf16 ''buy milk'', completed = False, createdAt = 0\<rparr>]"
    by (simp add: list_todos_ok [OF s] t orderBy_desc_createdAt_def)
  from C6_deleteTodo_best_effort [OF h] h s p show ?thesis
    by (simp add: t l)
qed

subsection \<open>C7\<close>

text \<open>
  Claim C7. A run of \<open>toggleTodo\<close> that returns without an error changes nothing in the
  table but the \<open>completed\<close> field of the row with that id: the table keeps its length and
  its order, every row keeps its id, text and creation time, every row with another id
  is the very same row, and the sequence and the clock are untouched.
\<close>

theorem C7_toggleTodo_changes_only_completed:
  assumes "fst (toggleTodo i w) = Inr ()"
  shows "length (todos (snd (toggleTodo i w))) = length (todos w)
       \<and> (\<forall>n < length (todos w).
             todo_id (todos (snd (toggleTodo i w)) ! n) = todo_id (todos w ! n)
           \<and> todo_text (todos (snd (toggleTodo i w)) ! n) = todo_text (todos w ! n)
           \<and> createdAt (todos (snd (toggleTodo i w)) ! n) = createdAt (todos w ! n)
           \<and> (todo_id (todos w ! n) \<noteq> i \<longrightarrow> todos (snd (toggleTodo i w)) ! n = todos w ! n))
       \<and> id_seq (snd (toggleTodo i w)) = id_seq w
       \<and> clock (snd (toggleTodo i w)) = clock w"
proof -
  from assms obtain t where sel: "\<not> rejects w (SelectById i)"
    and found: "where_eq_id i (todos w) = Some t"
    and upd: "\<not> rejects w (UpdateCompleted i (\<not> completed t))"
    using toggleTodo_success by blast
  have rows: "todos (snd (toggleTodo i w)) = set_completed i (\<not> completed t) (todos w)"
    and seq: "id_seq (snd (toggleTodo i w)) = id_seq w"
    and clk: "clock (snd (toggleTodo i w)) = clock w"
    using sel found upd by (simp_all add: toggleTodo_ok)
  have len: "length (set_completed i (\<not> completed t) (todos w)) = length (todos w)"
    by (simp add: set_completed_def)
  have each: "todo_id (set_completed i c rows ! n) = todo_id (rows ! n)
           \<and> todo_text (set_completed i c rows ! n) = todo_text (rows ! n)
           \<and> createdAt (set_completed i c rows ! n) = createdAt (rows ! n)
           \<and> (todo_id (rows ! n) \<noteq> i \<longrightarrow> set_completed i c rows ! n = rows ! n)"
    if "n < length rows" for n c and rows :: "todo list"
    using that by (simp add: set_completed_def)
  from len each seq clk show ?thesis
    unfolding rows by blast
qed

theorem C7_toggleTodo_changes_only_completed_witness:
  "fst (toggleTodo 2 added_A_B_C) = Inr ()
   \<and> todos (snd (toggleTodo 2 added_A_B_C))
     = [\<lparr>todo_id = 1, todo_text = utf16 ''A'', completed = False, createdAt = 0\<rparr>,
        \<lparr>todo_id = 2, todo_text = utf16 ''B'', completed = True, createdAt = 0\<rparr>,
        \<lparr>todo_id = 3, todo_text = utf16 ''C'', completed = False, createdAt = 0\<rparr>]
   \<and> length (todos (snd (toggleTodo 2 added_A_B_C))) = length (todos added_A_B_C)
   \<and> todos (snd (toggleTodo 2 added_A_B_C)) ! 0 = todos added_A_B_C ! 0
   \<and> todo_text (todos (snd (toggleTodo 2 added_A_B_C)) ! 1) = todo_text (todos added_A_B_C ! 1)
   \<and> id_seq (snd (toggleTodo 2 added_A_B_C)) = 3"
proof -
  have ok: "toggleTodo 2 added_A_B_C =
     (Inr (),
      added_A_B_C\<lparr>todos := set_completed 2 True (todos added_A_B_C),
        trace := trace added_A_B_C @ [Stmt (SelectById 2), Stmt (UpdateCompleted 2 True),
                            RevalidatePath ''/'']\<rparr>)"
    using toggleTodo_ok [of added_A_B_C 2
        "\<lparr>todo_id = 2, todo_text = utf16 ''B'', completed = False, createdAt = 0\<rparr>"]
    by (simp add: added_A_B_C_world where_eq_id_def)
  have h: "fst (toggleTodo 2 added_A_B_C) = Inr ()"
    by (simp add: ok)
  have rows: "todos (snd (toggleTodo 2 added_A_B_C))
     = [\<lparr>todo_id = 1, todo_text = utf16 ''A'', completed = False, createdAt = 0\<rparr>,
        \<lparr>todo_id = 2, todo_text = utf16 ''B'', completed = True, createdAt = 0\<rparr>,
        \<lparr>todo_id = 3, todo_text = utf16 ''C'', completed = False, createdAt = 0\<rparr>]"
  proof -
    have "todos (snd (toggleTodo 2 added_A_B_C)) = set_completed 2 True (todos added_A_B_C)"
      by (simp add: ok)
    then show ?thesis
      by (simp add: added_A_B_C_world set_completed_def)
  qed
  have len: "length (todos added_A_B_C) = 3"
    by (simp add: added_A_B_C_world)
  from C7_toggleTodo_changes_only_completed [OF h] h rows len show ?thesis
    by (simp add: added_A_B_C_world)
qed

subsection \<open>C8\<close>

text \<open>
  Claim C8. A run of \<open>addTodo\<close>, \<open>toggleTodo\<close> or \<open>deleteTodo\<close> that returns without an
  error adds to the effects its statements and then exactly one \<open>revalidatePath('/')\<close>,
  which comes last, after the statement that changes the table. A run of \<open>addTodo\<close> that
  throws the validation error adds no effect at all, and a run of \<open>toggleTodo\<close> that throws
  the not-found error adds only its lookup: neither invalidates.
\<close>

theorem C8_one_invalidation_after_mutation:
  "(fst (addTodo txt1 w1) = Inr () \<longrightarrow>
      trace (snd (addTodo txt1 w1))
        = trace w1 @ [Stmt (InsertOne (trim txt1)), RevalidatePath ''/''])
   \<and> (fst (toggleTodo i2 w2) = Inr () \<longrightarrow>
      (\<exists>c. trace (snd (toggleTodo i2 w2))
        = trace w2 @ [Stmt (SelectById i2), Stmt (UpdateCompleted i2 c), RevalidatePath ''/'']))
   \<and> (fst (deleteTodo i3 w3) = Inr () \<longrightarrow>
      trace (snd (deleteTodo i3 w3)) = trace w3 @ [Stmt (DeleteById i3), RevalidatePath ''/''])
   \<and> (fst (addTodo txt4 w4) = Inl ValidationError \<longrightarrow>
      trace (snd (addTodo txt4 w4)) = trace w4)
   \<and> (fst (toggleTodo i5 w5) = Inl NotFoundError \<longrightarrow>
      trace (snd (toggleTodo i5 w5)) = trace w5 @ [Stmt (SelectById i5)])"
proof (intro conjI impI)
  assume "fst (addTodo txt1 w1) = Inr ()"
  then have "trim txt1 \<noteq> []" and "\<not> rejects w1 (InsertOne (trim txt1))"
    by (simp_all add: addTodo_success)
  then show "trace (snd (addTodo txt1 w1))
        = trace w1 @ [Stmt (InsertOne (trim txt1)), RevalidatePath ''/'']"
    by (simp add: addTodo_ok)
next
  assume "fst (toggleTodo i2 w2) = Inr ()"
  then obtain t where "\<not> rejects w2 (SelectById i2)" and "where_eq_id i2 (todos w2) = Some t"
    and "\<not> rejects w2 (UpdateCompleted i2 (\<not> completed t))"
    using toggleTodo_success by blast
  then have "trace (snd (toggleTodo i2 w2))
        = trace w2 @ [Stmt (SelectById i2), Stmt (UpdateCompleted i2 (\<not> completed t)),
                      RevalidatePath ''/'']"
    by (simp add: toggleTodo_ok)
  then show "\<exists>c. trace (snd (toggleTodo i2 w2))
        = trace w2 @ [Stmt (SelectById i2), Stmt (UpdateCompleted i2 c), RevalidatePath ''/'']"
    by blast
next
  assume "fst (deleteTodo i3 w3) = Inr ()"
  then have "\<not> rejects w3 (DeleteById i3)"
    by (rule deleteTodo_success)
  then show "trace (snd (deleteTodo i3 w3))
        = trace w3 @ [Stmt (DeleteById i3), RevalidatePath ''/'']"
    by (simp add: deleteTodo_ok)
next
  assume "fst (addTodo txt4 w4) = Inl ValidationError"
  then have "trim txt4 = []"
    by (rule addTodo_ValidationError)
  then show "trace (snd (addTodo txt4 w4)) = trace w4"
    by (simp add: addTodo_empty)
next
  assume "fst (toggleTodo i5 w5) = Inl NotFoundError"
  then have "\<not> rejects w5 (SelectById i5)" and "where_eq_id i5 (todos w5) = None"
    by (simp_all add: toggleTodo_NotFoundError)
  then show "trace (snd (toggleTodo i5 w5)) = trace w5 @ [Stmt (SelectById i5)]"
    by (simp add: toggleTodo_missing)
qed

theorem C8_one_invalidation_after_mutation_witness:
  "fst (addTodo (utf16 ''  buy milk '') init_world) = Inr ()
   \<and> trace (snd (addTodo (utf16 ''  buy milk '') init_world))
       = [Stmt (InsertOne (utf16 ''buy milk'')), RevalidatePath ''/'']
   \<and> fst (toggleTodo 1 buy_milk) = Inr ()
   \<and> trace (snd (toggleTodo 1 buy_milk))
       = trace buy_milk @ [Stmt (SelectById 1), Stmt (UpdateCompleted 1 True), RevalidatePath ''/'']
   \<and> fst (deleteTodo 1 buy_milk) = Inr ()
   \<and> trace (snd (deleteTodo 1 buy_milk))
       = trace buy_milk @ [Stmt (DeleteById 1), RevalidatePath ''/'']
   \<and> fst (addTodo [0x20] buy_milk) = Inl ValidationError
   \<and> trace (snd (addTodo [0x20] buy_milk)) = trace buy_milk
   \<and> fst (toggleTodo 2 buy_milk) = Inl NotFoundError
   \<and> trace (snd (toggleTodo 2 buy_milk)) = trace buy_milk @ [Stmt (SelectById 2)]"
proof -
  have a: "fst (addTodo (utf16 ''  buy milk '') init_world) = Inr ()"
    by (simp add: addTodo_ok trim_buy_milk utf16_buy_milk_nonempty toWellFormed_buy_milk init_world_def)
  have t: "fst (toggleTodo 1 buy_milk) = Inr ()"
    by (simp add: toggleTodo_ok [where t = "\<lparr>todo_id = 1, todo_text = utf16 ''buy milk'',
          completed = False, createdAt = 0\<rparr>"] buy_milk_world where_eq_id_def)
  have tt: "trace (snd (toggleTodo 1 buy_milk))
       = trace buy_milk @ [Stmt (SelectById 1), Stmt (UpdateCompleted 1 True), RevalidatePath ''/'']"
    by (simp add: toggleTodo_ok [where t = "\<lparr>todo_id = 1, todo_text = utf16 ''buy milk'',
          completed = False, createdAt = 0\<rparr>"] buy_milk_world where_eq_id_def)
  have d: "fst (deleteTodo 1 buy_milk) = Inr ()"
    by (simp add: deleteTodo_ok buy_milk_world)
  have v: "fst (addTodo [0x20] buy_milk) = Inl ValidationError"
    by (simp add: addTodo_empty trim_def isWhiteSpace_def)
  have n: "fst (toggleTodo 2 buy_milk) = Inl NotFoundError"
    by (simp add: toggleTodo_missing buy_milk_world where_eq_id_def)
  from C8_one_invalidation_after_mutation
    [of "utf16 ''  buy milk ''" init_world 1 buy_milk 1 buy_milk "[0x20]" buy_milk 2 buy_milk]
    a t tt d v n
  show ?thesis
    by (simp add: trim_buy_milk init_world_def)
qed

subsection \<open>C9\<close>

text \<open>
  Claim C9. Take an item view with no action in flight. Toggling shows the negated
  flag at once. When the \<open>toggleTodo\<close> call behind it fails, with \<open>StorageError\<close> or any
  other error, the end of the action puts the view back exactly as it was before the
  toggle: it shows the \<open>completed\<close> value of its prop again, the control is enabled
  again, and the row in the table is the one from before the toggle. The view does not
  keep the optimistic value.
\<close>

theorem C9_failed_toggle_reverts:
  assumes settled: "updates v = []" "\<not> isPending v"
    and failed: "handleToggle v w = ((v1, Inl e), w')"
  shows "optimisticCompleted v = completed (todo v)
       \<and> optimisticCompleted v1 = (\<not> completed (todo v))
       \<and> isPending v1
       \<and> action_finished (Inl e) w' v1 = Some v
       \<and> todos w' = todos w"
proof -
  have shown: "optimisticCompleted v = completed (todo v)"
    using settled by (simp add: optimisticCompleted_def useOptimistic_def)
  from failed have v1: "v1 = v\<lparr>updates := updates v @ [\<not> optimisticCompleted v], isPending := True\<rparr>"
    and run: "toggleTodo (todo_id (todo v)) w = (Inl e, w')"
    by (auto simp: handleToggle_def Let_def split: prod.splits)
  have flipped: "optimisticCompleted v1 = (\<not> completed (todo v))"
    using settled by (simp add: v1 optimisticCompleted_def useOptimistic_def)
  have pending: "isPending v1"
    by (simp add: v1)
  have reverted: "action_finished (Inl e) w' v1 = Some v"
    using settled by (simp add: action_finished_def v1)
  from run have "fst (toggleTodo (todo_id (todo v)) w) = Inl e"
    and w': "w' = snd (toggleTodo (todo_id (todo v)) w)"
    by simp_all
  then have rows: "todos w' = todos w"
    using toggleTodo_failure_todos [of "todo_id (todo v)" w e "''/''"] by simp
  from shown flipped pending reverted rows show ?thesis by blast
qed

theorem C9_failed_toggle_reverts_witness:
  "updates (TodoItem \<lparr>todo_id = 1, todo_text = utf16 ''buy milk'', completed = False, createdAt = 0\<rparr>) = []
   \<and> \<not> isPending (TodoItem \<lparr>todo_id = 1, todo_text = utf16 ''buy milk'', completed = False, createdAt = 0\<rparr>)
   \<and> handleToggle
        (TodoItem \<lparr>todo_id = 1, todo_text = utf16 ''buy milk'', completed = False, createdAt = 0\<rparr>)
        buy_milk_update_fails
      = ((\<lparr>todo = \<lparr>todo_id = 1, todo_text = utf16 ''buy milk'', completed = False, createdAt = 0\<rparr>,
           updates = [True], isPending = True\<rparr>,
          Inl StorageError),
         buy_milk_update_fails
           \<lparr>trace := trace buy_milk_update_fails @ [Stmt (SelectById 1), Stmt (UpdateCompleted 1 True)]\<rparr>)
   \<and> optimisticCompleted
        \<lparr>todo = \<lparr>todo_id = 1, todo_text = utf16 ''buy milk'', completed = False, createdAt = 0\<rparr>,
         updates = [True], isPending = True\<rparr>
   \<and> action_finished (Inl StorageError)
        (buy_milk_update_fails
           \<lparr>trace := trace buy_milk_update_fails @ [Stmt (SelectById 1), Stmt (UpdateCompleted 1 True)]\<rparr>)
        \<lparr>todo = \<lparr>todo_id = 1, todo_text = utf16 ''buy milk'', completed = False, createdAt = 0\<rparr>,
         updates = [True], isPending = True\<rparr>
      = Some (TodoItem \<lparr>todo_id = 1, todo_text = utf16 ''buy milk'', completed = False, createdAt = 0\<rparr>)
   \<and> \<not> optimisticCompleted
        (TodoItem \<lparr>todo_id = 1, todo_text = utf16 ''buy milk'', completed = False, createdAt = 0\<rparr>)"
proof -
  let ?t = "\<lparr>todo_id = 1, todo_text = utf16 ''buy milk'', completed = False, createdAt = 0\<rparr>"
  let ?w' = "buy_milk_update_fails
           \<lparr>trace := trace buy_milk_update_fails @ [Stmt (SelectById 1), Stmt (UpdateCompleted 1 True)]\<rparr>"
  have u: "updates (TodoItem ?t) = []" and p: "\<not> isPending (TodoItem ?t)"
    by (simp_all add: TodoItem_def)
  have "toggleTodo 1 buy_milk_update_fails = (Inl StorageError, ?w')"
    using toggleTodo_update_rejected [of buy_milk_update_fails 1 ?t]
    by (simp add: buy_milk_update_fails_world where_eq_id_def)
  then have h: "handleToggle (TodoItem ?t) buy_milk_update_fails
      = ((\<lparr>todo = ?t, updates = [True], isPending = True\<rparr>, Inl StorageError), ?w')"
    by (simp add: handleToggle_def TodoItem_def optimisticCompleted_def useOptimistic_def)
  from C9_failed_toggle_reverts [OF u p h] u p h show ?thesis
    by (simp add: TodoItem_def)
qed

subsection \<open>C10\<close>

text \<open>
  Claim C10. For every list of rows the list view renders, the ``active'' count shown plus
  the ``completed'' count shown is the number of items shown: the two counts are the
  lengths of the two filters by the \<open>completed\<close> flag, one the negation of the other, so
  each item is counted in exactly one of them.
\<close>

theorem C10_counts_partition:
  assumes "render_TodoList allTodos = Listing n_active n_completed items"
  shows "items = allTodos
       \<and> n_active = length (filter (\<lambda>todo. \<not> completed todo) items)
       \<and> n_completed = length (filter (\<lambda>todo. completed todo) items)
       \<and> n_active + n_completed = length items"
proof -
  from assms have items: "items = allTodos"
    and a: "n_active = length (filter (\<lambda>todo. \<not> completed todo) allTodos)"
    and c: "n_completed = length (filter (\<lambda>todo. completed todo) allTodos)"
    by (auto simp: render_TodoList_def Let_def split: if_splits)
  have "length (filter (\<lambda>todo. completed todo) allTodos)
      + length (filter (\<lambda>todo. \<not> completed todo) allTodos) = length allTodos"
    by (rule sum_length_filter_compl)
  with items a c show ?thesis by simp
qed

theorem C10_counts_partition_witness:
  "render_TodoList
     [\<lparr>todo_id = 2, todo_text = utf16 ''B'', completed = True, createdAt = 5\<rparr>,
      \<lparr>todo_id = 1, todo_text = utf16 ''A'', completed = False, createdAt = 4\<rparr>,
      \<lparr>todo_id = 3, todo_text = utf16 ''C'', completed = False, createdAt = 3\<rparr>]
   = Listing 2 1
     [\<lparr>todo_id = 2, todo_text = utf16 ''B'', completed = True, createdAt = 5\<rparr>,
      \<lparr>todo_id = 1, todo_text = utf16 ''A'', completed = False, createdAt = 4\<rparr>,
      \<lparr>todo_id = 3, todo_text = utf16 ''C'', completed = False, createdAt = 3\<rparr>]
   \<and> (2::nat) + 1 = length
     [\<lparr>todo_id = 2, todo_text = utf16 ''B'', completed = True, createdAt = 5\<rparr>,
      \<lparr>todo_id = 1, todo_text = utf16 ''A'', completed = False, createdAt = 4\<rparr>,
      \<lparr>todo_id = 3, todo_text = utf16 ''C'', completed = False, createdAt = 3\<rparr>]"
proof -
  have r: "render_TodoList
     [\<lparr>todo_id = 2, todo_text = utf16 ''B'', completed = True, createdAt = 5\<rparr>,
      \<lparr>todo_id = 1, todo_text = utf16 ''A'', completed = False, createdAt = 4\<rparr>,
      \<lparr>todo_id = 3, todo_text = utf16 ''C'', completed = False, createdAt = 3\<rparr>]
   = Listing 2 1
     [\<lparr>todo_id = 2, todo_text = utf16 ''B'', completed = True, createdAt = 5\<rparr>,
      \<lparr>todo_id = 1, todo_text = utf16 ''A'', completed = False, createdAt = 4\<rparr>,
      \<lparr>todo_id = 3, todo_text = utf16 ''C'', completed = False, createdAt = 3\<rparr>]"
    by (simp add: render_TodoList_def)
  from C10_counts_partition [OF r] r show ?thesis by simp
qed

end
